theory Spec2Isabelle
  imports Complex_Main "HOL-Library.Sublist"
begin

section \<open>Data model\<close>

text \<open>
  The content of a \<open>Unit Usg\<close> cell, as far as the expression that reads it tells cells
  apart (\<open>cell || 1.0\<close>, then \<open>isNaN\<close>, then \<open>parseFloat\<close>):
  \<^item> \<open>Absent\<close>: the property is missing, \<open>undefined\<close> or \<open>null\<close>;
  \<^item> \<open>Number x\<close>: a number;
  \<^item> \<open>NumericText x\<close>: a non-empty string on which \<open>isNaN\<close> is false and \<open>parseFloat\<close>
    gives \<open>x\<close>, such as \<open>'2.5'\<close> or \<open>'0'\<close>;
  \<^item> \<open>OtherText\<close>: the empty string, or a string on which \<open>isNaN\<close> is true, such as \<open>'n/a'\<close>.

  Quantities are JavaScript numbers in the source; the model computes with rationals,
  so rounding, NaN and the infinities are outside it. So is a cell on which \<open>isNaN\<close> is
  false and \<open>parseFloat\<close> gives NaN (a string of white space only, a boolean): the source
  reads NaN from it.
\<close>

datatype cell = Absent | Number rat | NumericText rat | OtherText

text \<open>
  One BOM line as the processor reads it. The fields are the columns the class touches:
  \<open>LV\<close> (indenture level), \<open>LN\<close> (sequence, overwritten by \<open>_reindexLN\<close>), \<open>Material\<close>,
  \<open>Part Number\<close> (the parent's material code, empty when absent) and \<open>Unit Usg\<close>.
  The two derived columns \<open>SYS_CPN\<close> and \<open>Ttl. Usage\<close> are absent until \<open>process\<close> writes
  them.
\<close>

record row =
  LV :: int
  LN :: nat
  Material :: string
  Part_Number :: string
  Unit_Usg :: cell
  SYS_CPN :: "string option"
  Ttl_Usage :: "rat option"

text \<open>A special rule \<open>{lv, prefix}\<close>; \<open>prefix\<close> may list several prefixes separated by \<open>|\<close>.\<close>

record lv_rule =
  lv :: int
  prefix_str :: string

text \<open>The constructor's third argument: \<open>null\<close>, one rule object, or an array of rules.\<close>

datatype lv_rules = NoRules | SingleRule lv_rule | RuleArray "lv_rule list"

text \<open>
  A compiled regular expression is represented by its \<open>test\<close> function. The host's
  \<open>RegExp\<close> constructor is a parameter of the model: it returns \<open>None\<close> where
  \<open>new RegExp\<close> throws a SyntaxError.
\<close>

type_synonym regexp = "string \<Rightarrow> bool"
type_synonym regexp_compiler = "string \<Rightarrow> regexp option"

record processor =
  data :: "row list"
  pattern :: string
  lvSpecialRules :: lv_rules
  materialPattern :: regexp
  materialIndex :: "string \<rightharpoonup> nat list"
  visited :: "string set"

section \<open>Strings\<close>

text \<open>
  A string of the model is a list of code units below 256. \<open>String.prototype.trim\<close>
  strips the white space and line terminator characters; below 256 these are tab, line
  feed, vertical tab, form feed, carriage return, space and the no-break space U+00A0.
  A string with a code unit of 256 or more is outside the model.
\<close>

definition is_space :: "char \<Rightarrow> bool" where
  "is_space c = (c = CHR 0x09 \<or> c = CHR 0x0A \<or> c = CHR 0x0B \<or> c = CHR 0x0C
     \<or> c = CHR 0x0D \<or> c = CHR '' '' \<or> c = CHR 0xA0)"

definition trim :: "string \<Rightarrow> string" where
  "trim s = rev (dropWhile is_space (rev (dropWhile is_space s)))"

text \<open>
  \<open>s.split(sep)\<close> for a one-character separator: the empty string splits into one empty
  string, and a separator at the end leaves an empty last piece.
\<close>

fun split :: "char \<Rightarrow> string \<Rightarrow> string list" where
  "split sep [] = [[]]"
| "split sep (c # cs) =
     (if c = sep then [] # split sep cs
      else (case split sep cs of
              [] \<Rightarrow> [[c]]
            | w # ws \<Rightarrow> (c # w) # ws))"

section \<open>Pattern matcher\<close>

text \<open>
  The fallback expression \<open>/^$/\<close> of the constructor's \<open>catch\<close>: it tests true on
  the empty string only.
\<close>

definition empty_regexp :: regexp where
  "empty_regexp s = (s = [])"

text \<open>
  \<open>new RegExp(`^(${pattern})`)\<close> for a pattern made of literal characters and \<open>|\<close>:
  the expression tests whether the string starts with one of the alternatives. Such a
  pattern always compiles. Any other pattern is outside this fragment and is treated as a
  SyntaxError, which is what the host does for, e.g., \<open>(\<close>; the theorems that do not
  name this function hold for every compiler.
\<close>

definition regexp_meta :: "char \<Rightarrow> bool" where
  "regexp_meta c = (c = CHR 0x5C \<or> c \<in> set ''^$.*+?()[]{}'')"

definition RegExp_literal :: regexp_compiler where
  "RegExp_literal pat =
     (if list_ex regexp_meta pat then None
      else Some (\<lambda>s. list_ex (\<lambda>alt. prefix alt s) (split CHR ''|'' pat)))"

text \<open>\<open>matchesPattern\<close>: the empty string never matches; the material is not trimmed here.\<close>

definition matchesPattern :: "processor \<Rightarrow> string \<Rightarrow> bool" where
  "matchesPattern p material =
     (if material = [] then False else materialPattern p material)"

definition is43Pattern :: "string \<Rightarrow> bool" where
  "is43Pattern material = prefix ''43'' (trim material)"

definition is45Pattern :: "string \<Rightarrow> bool" where
  "is45Pattern material = prefix ''45'' (trim material)"

definition startsWith :: "string \<Rightarrow> string \<Rightarrow> bool" where
  "startsWith material pfx = prefix pfx (trim material)"

section \<open>Special-rule evaluator\<close>

definition checkSingleRule :: "int \<Rightarrow> string \<Rightarrow> lv_rule \<Rightarrow> bool" where
  "checkSingleRule level material rule =
     (let prefixes = map trim (split CHR ''|'' (prefix_str rule));
          matchesPrefix = list_ex (\<lambda>pfx. startsWith material pfx) prefixes
      in if \<not> matchesPrefix then False else level \<le> lv rule)"

definition matchesLVSpecialRule :: "processor \<Rightarrow> int \<Rightarrow> string \<Rightarrow> bool" where
  "matchesLVSpecialRule p level material =
     (case lvSpecialRules p of
        NoRules \<Rightarrow> False
      | RuleArray rules \<Rightarrow> list_ex (\<lambda>rule. checkSingleRule level material rule) rules
      | SingleRule rule \<Rightarrow> checkSingleRule level material rule)"

section \<open>Sequence normalizer and material index\<close>

text \<open>\<open>_reindexLN\<close>: the loop writes 1, 2, ... into \<open>LN\<close> in row order.\<close>

fun reindexLN_from :: "nat \<Rightarrow> row list \<Rightarrow> row list" where
  "reindexLN_from sequence [] = []"
| "reindexLN_from sequence (r # rs) = r\<lparr>LN := sequence\<rparr> # reindexLN_from (Suc sequence) rs"

definition reindexLN :: "row list \<Rightarrow> row list" where
  "reindexLN rows = (if length rows = 0 then rows else reindexLN_from 1 rows)"

text \<open>
  \<open>_buildMaterialIndex\<close>: one pass over the positions \<open>0 .. length - 1\<close>; a row with a
  blank material is skipped, a new material starts a list, a known one is appended to.
\<close>

definition indexStep :: "row list \<Rightarrow> nat \<Rightarrow> (string \<rightharpoonup> nat list) \<Rightarrow> (string \<rightharpoonup> nat list)" where
  "indexStep rows idx mi =
     (let material = trim (Material (rows ! idx))
      in if material \<noteq> [] then
           (case mi material of
              None \<Rightarrow> mi(material \<mapsto> [idx])
            | Some indices \<Rightarrow> mi(material \<mapsto> indices @ [idx]))
         else mi)"

definition buildMaterialIndex :: "row list \<Rightarrow> (string \<rightharpoonup> nat list)" where
  "buildMaterialIndex rows = fold (indexStep rows) [0..<length rows] Map.empty"

section \<open>Constructor\<close>

text \<open>
  The constructor deep-copies the table (here a value; the section on the object store
  says which objects are written), renumbers \<open>LN\<close>, compiles the pattern with the fallback
  of the \<open>catch\<close> branch, and builds the index. On rows and rules of the types above no
  statement of the constructor can throw.
\<close>

definition constructor :: "regexp_compiler \<Rightarrow> row list \<Rightarrow> string \<Rightarrow> lv_rules \<Rightarrow> processor" where
  "constructor compile rows pat rules =
     (let d = reindexLN rows
      in \<lparr> data = d,
           pattern = pat,
           lvSpecialRules = rules,
           materialPattern = (case compile pat of Some re \<Rightarrow> re | None \<Rightarrow> empty_regexp),
           materialIndex = buildMaterialIndex d,
           visited = {} \<rparr>)"

section \<open>Nearest-preceding resolver\<close>

text \<open>
  Reading a property of \<open>undefined\<close> throws a TypeError. In the class this can happen
  where a position taken from the index lies outside \<open>this.data\<close>.
\<close>

datatype js_error = TypeError

text \<open>
  The loop of \<open>_findMaterialBeforeLN\<close>: \<open>i\<close> runs from \<open>length - 1\<close> down to 0; the
  argument here is \<open>i + 1\<close>. \<open>this.data[idx].LN\<close> throws when \<open>idx\<close> is not a position of
  the table. \<open>LN || 0\<close> is \<open>LN\<close> on numbers.
\<close>

fun scanBefore :: "row list \<Rightarrow> nat list \<Rightarrow> nat \<Rightarrow> nat \<Rightarrow> js_error + nat option" where
  "scanBefore rows indices beforeLN 0 = Inr None"
| "scanBefore rows indices beforeLN (Suc i) =
     (let idx = indices ! i
      in if idx < length rows then
           (let rowLN = LN (rows ! idx)
            in if rowLN < beforeLN then Inr (Some idx) else scanBefore rows indices beforeLN i)
         else Inl TypeError)"

definition findMaterialBeforeLN :: "processor \<Rightarrow> string \<Rightarrow> nat \<Rightarrow> js_error + nat option" where
  "findMaterialBeforeLN p material beforeLN =
     (case materialIndex p material of
        None \<Rightarrow> Inr None
      | Some indices \<Rightarrow> scanBefore (data p) indices beforeLN (length indices))"

section \<open>Hierarchy traversal\<close>

text \<open>
  The unit usage of a row, as both \<open>_traverseHierarchyUnified\<close> and \<open>process\<close> read it:
  \<open>let u = row['Unit Usg'] || 1.0; if (isNaN(u)) u = 1.0; else u = parseFloat(u)\<close>.
  A missing cell, the number 0 and the empty string are falsy and give 1; any other
  number gives itself; a non-empty string is truthy, so it gives 1 when \<open>isNaN\<close> is true
  of it and what \<open>parseFloat\<close> reads otherwise, which is 0 for the string \<open>'0'\<close>.
\<close>

definition unitUsgOf :: "row \<Rightarrow> rat" where
  "unitUsgOf r =
     (case Unit_Usg r of
        Absent \<Rightarrow> 1
      | Number x \<Rightarrow> if x = 0 then 1 else x
      | NumericText x \<Rightarrow> x
      | OtherText \<Rightarrow> 1)"

text \<open>\<open>row.LV || -1\<close>.\<close>

definition lvOrMinus1 :: "row \<Rightarrow> int" where
  "lvOrMinus1 r = (if LV r = 0 then - 1 else LV r)"

text \<open>
  \<open>_traverseHierarchyUnified\<close>. The visited set is threaded through: the function takes
  it and returns it next to the result pair. A TypeError of the first lookup is thrown
  before \<open>visited.add\<close> and goes to the \<open>catch\<close>, which returns the arguments. Every exit
  after \<open>visited.add\<close>, a TypeError of the second lookup included, goes through the
  \<open>finally\<close>, which removes \<open>startMaterial\<close>. Nothing else inside the \<open>try\<close> can throw on
  rows and rules of the types above.
\<close>

function traverseHierarchyUnified ::
  "processor \<Rightarrow> string \<Rightarrow> rat \<Rightarrow> nat \<Rightarrow> nat \<Rightarrow> nat \<Rightarrow> string set \<Rightarrow> (string \<times> rat) \<times> string set" where
  "traverseHierarchyUnified p startMaterial initialUsage depth maxDepth currentLN vis =
     (if depth > maxDepth then ((startMaterial, initialUsage), vis)
      else
        (case findMaterialBeforeLN p startMaterial currentLN of
           Inl e \<Rightarrow> ((startMaterial, initialUsage), vis)
         | Inr None \<Rightarrow> ((startMaterial, initialUsage), vis)
         | Inr (Some currentIdx) \<Rightarrow>
             (let currentRow = data p ! currentIdx;
                  currentRowLN = LN currentRow;
                  currentLV = lvOrMinus1 currentRow
              in if startMaterial \<in> vis then ((startMaterial, initialUsage), vis)
                 else
                   (let vis1 = insert startMaterial vis;
                        parentPartNumber = Part_Number currentRow
                    in if currentLV \<le> 0 \<or> parentPartNumber = [] then
                         ((startMaterial, initialUsage), vis1 - {startMaterial})
                       else
                         (let parentMaterial = trim parentPartNumber
                          in case findMaterialBeforeLN p parentMaterial currentRowLN of
                               Inl e \<Rightarrow> ((startMaterial, initialUsage), vis1 - {startMaterial})
                             | Inr None \<Rightarrow> ((startMaterial, initialUsage), vis1 - {startMaterial})
                             | Inr (Some parentIdx) \<Rightarrow>
                                 (let parentRow = data p ! parentIdx;
                                      parentUnitUsg = unitUsgOf parentRow;
                                      newUsage = initialUsage * parentUnitUsg
                                  in if matchesPattern p (Material parentRow) then
                                       (if is43Pattern (Material parentRow) then
                                          (case traverseHierarchyUnified p parentMaterial newUsage
                                                  (depth + 1) maxDepth currentRowLN vis1 of
                                             ((upstreamMaterial, finalTtlUsage), vis2) \<Rightarrow>
                                               if is45Pattern upstreamMaterial
                                               then ((upstreamMaterial, finalTtlUsage), vis2 - {startMaterial})
                                               else ((Material parentRow, finalTtlUsage), vis2 - {startMaterial}))
                                        else
                                          (case traverseHierarchyUnified p parentMaterial newUsage
                                                  (depth + 1) maxDepth currentRowLN vis1 of
                                             ((_, finalTtlUsage), vis2) \<Rightarrow>
                                               ((Material parentRow, finalTtlUsage), vis2 - {startMaterial})))
                                     else
                                       (let parentLV = lvOrMinus1 parentRow
                                        in if matchesLVSpecialRule p parentLV (Material parentRow) then
                                             ((Material parentRow, newUsage), vis1 - {startMaterial})
                                           else
                                             (case traverseHierarchyUnified p parentMaterial newUsage
                                                     (depth + 1) maxDepth currentRowLN vis1 of
                                                ((parentSysCpn, parentTtlUsage), vis2) \<Rightarrow>
                                                  ((parentSysCpn, parentTtlUsage), vis2 - {startMaterial})))))))))"
  by pat_completeness auto
termination
  by (relation "measure (\<lambda>(p, s, u, depth, maxDepth, ln, vis). Suc maxDepth - depth)") auto

declare traverseHierarchyUnified.simps [simp del]

section \<open>Row orchestrator\<close>

text \<open>
  The body of the loop of \<open>process\<close> for one row: the priority cascade. Every call of
  the traversal is preceded by \<open>visited.clear()\<close>, has depth 0, cap 20 and the row's own
  \<open>LN\<close> as bound. \<open>sysCpn || currentMaterial\<close> replaces an empty result.
\<close>

definition processRow :: "processor \<Rightarrow> row \<Rightarrow> string set \<Rightarrow> (string \<times> rat) \<times> string set" where
  "processRow p r vis =
     (let currentMaterial = Material r;
          currentLV = LV r;
          currentLN = LN r;
          unitUsg = unitUsgOf r
      in if currentLV \<le> 1 then ((currentMaterial, unitUsg), vis)
         else if matchesPattern p currentMaterial then
           (case traverseHierarchyUnified p currentMaterial unitUsg 0 20 currentLN {} of
              ((_, ttlUsage), vis') \<Rightarrow> ((currentMaterial, ttlUsage), vis'))
         else if matchesLVSpecialRule p currentLV currentMaterial then
           (case traverseHierarchyUnified p currentMaterial unitUsg 0 20 currentLN {} of
              ((_, ttlUsage), vis') \<Rightarrow> ((currentMaterial, ttlUsage), vis'))
         else
           (let currentPartNumber = Part_Number r
            in if currentPartNumber = [] then ((currentMaterial, unitUsg), vis)
               else
                 (let parentMaterialStr = trim currentPartNumber
                  in if matchesPattern p parentMaterialStr then
                       (case traverseHierarchyUnified p parentMaterialStr unitUsg 0 20 currentLN {} of
                          ((_, ttlUsage), vis') \<Rightarrow> ((parentMaterialStr, ttlUsage), vis'))
                     else
                       (case traverseHierarchyUnified p parentMaterialStr unitUsg 0 20 currentLN {} of
                          ((sysCpn, ttlUsage), vis') \<Rightarrow>
                            ((if sysCpn = [] then currentMaterial else sysCpn, ttlUsage), vis')))))"

text \<open>The first loop of \<open>process\<close>: the results of all rows, in order.\<close>

fun processRows :: "processor \<Rightarrow> row list \<Rightarrow> string set \<Rightarrow> (string \<times> rat) list \<times> string set" where
  "processRows p [] vis = ([], vis)"
| "processRows p (r # rs) vis =
     (case processRow p r vis of
        (res, vis1) \<Rightarrow>
          (case processRows p rs vis1 of
             (ress, vis2) \<Rightarrow> (res # ress, vis2)))"

text \<open>The second loop: the two result arrays are written onto the rows.\<close>

fun writeResults :: "row list \<Rightarrow> (string \<times> rat) list \<Rightarrow> row list" where
  "writeResults [] results = []"
| "writeResults (r # rs) [] = r\<lparr>SYS_CPN := None, Ttl_Usage := None\<rparr> # writeResults rs []"
| "writeResults (r # rs) ((sysCpn, ttlUsage) # results) =
     r\<lparr>SYS_CPN := Some sysCpn, Ttl_Usage := Some ttlUsage\<rparr> # writeResults rs results"

text \<open>\<open>process\<close> returns \<open>this.data\<close>; here the processor after the call, whose \<open>data\<close> it is.\<close>

definition process :: "processor \<Rightarrow> processor" where
  "process p =
     (case processRows p (data p) (visited p) of
        (results, vis') \<Rightarrow> p\<lparr>data := writeResults (data p) results, visited := vis'\<rparr>)"

section \<open>Object store\<close>

text \<open>
  The caller's table is an array of references to row objects, and so is \<open>this.data\<close>.
  The store is the list of all row objects; a reference is a position in it and a new
  object is appended. The functions above compute on the rows \<open>this.data\<close> refers to;
  the functions here say which objects the constructor and \<open>process\<close> write.
\<close>

type_synonym ref = nat
type_synonym heap = "row list"

text \<open>The rows a table refers to.\<close>

definition snapshot :: "heap \<Rightarrow> ref list \<Rightarrow> row list" where
  "snapshot h table = map (\<lambda>a. h ! a) table"

text \<open>\<open>JSON.parse(JSON.stringify(data))\<close>: one new object per row, with the same columns.\<close>

definition deepCopy :: "heap \<Rightarrow> ref list \<Rightarrow> heap \<times> ref list" where
  "deepCopy h table = (h @ snapshot h table, [length h..<length h + length table])"

text \<open>The loop of \<open>_reindexLN\<close>, writing through the references of \<open>this.data\<close>.\<close>

fun reindexLN_refs :: "heap \<Rightarrow> nat \<Rightarrow> ref list \<Rightarrow> heap" where
  "reindexLN_refs h sequence [] = h"
| "reindexLN_refs h sequence (a # as) =
     reindexLN_refs (h[a := (h ! a)\<lparr>LN := sequence\<rparr>]) (Suc sequence) as"

text \<open>The second loop of \<open>process\<close>, writing through the references of \<open>this.data\<close>.\<close>

fun writeResults_refs :: "heap \<Rightarrow> ref list \<Rightarrow> (string \<times> rat) list \<Rightarrow> heap" where
  "writeResults_refs h [] results = h"
| "writeResults_refs h (a # as) [] =
     writeResults_refs (h[a := (h ! a)\<lparr>SYS_CPN := None, Ttl_Usage := None\<rparr>]) as []"
| "writeResults_refs h (a # as) ((sysCpn, ttlUsage) # results) =
     writeResults_refs (h[a := (h ! a)\<lparr>SYS_CPN := Some sysCpn, Ttl_Usage := Some ttlUsage\<rparr>]) as results"

text \<open>
  The constructor on the store: it copies the caller's table, renumbers the copies, and
  yields the store, the references held in \<open>this.data\<close> and the processor.
\<close>

definition constructor_store ::
  "regexp_compiler \<Rightarrow> heap \<Rightarrow> ref list \<Rightarrow> string \<Rightarrow> lv_rules \<Rightarrow> heap \<times> ref list \<times> processor" where
  "constructor_store compile h table pat rules =
     (case deepCopy h table of
        (h1, refs) \<Rightarrow>
          (if length refs = 0 then h1 else reindexLN_refs h1 1 refs,
           refs,
           constructor compile (snapshot h table) pat rules))"

text \<open>\<open>process\<close> on the store: the results are written onto the objects of \<open>this.data\<close>.\<close>

definition process_store :: "heap \<times> ref list \<times> processor \<Rightarrow> heap \<times> ref list \<times> processor" where
  "process_store st =
     (case st of
        (h, refs, p) \<Rightarrow>
          (writeResults_refs h refs (fst (processRows p (data p) (visited p))), refs, process p))"

section \<open>Concrete tables\<close>

text \<open>
  An input row literal \<open>{level, material, parentRef, usage}\<close> with a number as usage;
  \<open>LN\<close> is assigned later.
\<close>

definition mkRow :: "int \<Rightarrow> string \<Rightarrow> string \<Rightarrow> rat \<Rightarrow> row" where
  "mkRow level material parentRef usage =
     \<lparr>LV = level, LN = 0, Material = material, Part_Number = parentRef,
      Unit_Usg = Number usage, SYS_CPN = None, Ttl_Usage = None\<rparr>"

text \<open>A table that uses the codes \<open>A\<close> and \<open>B\<close> at two tree positions each.\<close>

definition dup_rows :: "row list" where
  "dup_rows =
     [mkRow 1 ''R'' [] 1,
      mkRow 2 ''A'' ''R'' 2,
      mkRow 3 ''B'' ''A'' 3,
      mkRow 2 ''A'' ''R'' 4,
      mkRow 3 ''B'' ''A'' 5]"

text \<open>A table whose parent references form the cycle \<open>A \<rightarrow> B \<rightarrow> A\<close>.\<close>

definition cycle_rows :: "row list" where
  "cycle_rows =
     [mkRow 2 ''A'' ''B'' 2,
      mkRow 2 ''B'' ''A'' 3,
      mkRow 2 ''A'' ''B'' 5,
      mkRow 3 ''X'' ''A'' 7]"

text \<open>The scenario of the specification: a root, a \<open>45\<close> assembly below it, a part below that.\<close>

definition scenario_rows :: "row list" where
  "scenario_rows =
     [mkRow 1 ''ROOT'' [] 1,
      mkRow 2 ''45ABC'' ''ROOT'' 2,
      mkRow 3 ''X1'' ''45ABC'' 5]"

text \<open>The tie-break chain: \<open>X\<close> (level 4) under \<open>43A\<close> (level 3) under \<open>45B\<close> (level 2) under the root.\<close>

definition tiebreak_rows :: "row list" where
  "tiebreak_rows =
     [mkRow 1 ''ROOT'' [] 1,
      mkRow 2 ''45B'' ''ROOT'' 2,
      mkRow 3 ''43A'' ''45B'' 3,
      mkRow 4 ''X'' ''43A'' 5]"

text \<open>A \<open>43\<close> assembly directly under a \<open>45\<close> assembly, reached from a part two levels below.\<close>

definition supersede_rows :: "row list" where
  "supersede_rows =
     [mkRow 1 ''ROOT'' [] 1,
      mkRow 2 ''45B'' ''ROOT'' 2,
      mkRow 3 ''43A'' ''45B'' 3,
      mkRow 4 ''N'' ''43A'' 5,
      mkRow 5 ''X'' ''N'' 7]"



definition dcs_rule :: lv_rules where
  "dcs_rule = SingleRule \<lparr>lv = 2, prefix_str = ''DCS|DC02''\<rparr>"


text \<open>
  A processor whose index was overwritten after construction: the code \<open>A\<close> is listed at
  position 9, outside the table of four rows.
\<close>

definition broken_index :: processor where
  "broken_index =
     (constructor RegExp_literal cycle_rows ''45'' NoRules)\<lparr>materialIndex := [''A'' \<mapsto> [9]]\<rparr>"

text \<open>
  The same, with \<open>A\<close> listed at its first position and its parent \<open>B\<close> listed at position 9.
\<close>

definition broken_parent_index :: processor where
  "broken_parent_index =
     (constructor RegExp_literal cycle_rows ''45'' NoRules)
       \<lparr>materialIndex := [''A'' \<mapsto> [0], ''B'' \<mapsto> [9]]\<rparr>"





text \<open>A \<open>43\<close> assembly under a part \<open>P\<close> of no class under a \<open>45\<close> assembly.\<close>

definition passover_rows :: "row list" where
  "passover_rows =
     [mkRow 1 ''45B'' [] 1,
      mkRow 2 ''P'' ''45B'' 2,
      mkRow 3 ''43A'' ''P'' 3,
      mkRow 4 ''N'' ''43A'' 5,
      mkRow 5 ''X'' ''N'' 7]"


text \<open>
  The code \<open>N\<close> at two places of one chain: a part \<open>N\<close> under a \<open>43\<close> assembly under an
  assembly \<open>N\<close> under a \<open>45\<close> assembly.
\<close>

definition repeat_rows :: "row list" where
  "repeat_rows =
     [mkRow 1 ''45B'' [] 1,
      mkRow 2 ''N'' ''45B'' 2,
      mkRow 3 ''43A'' ''N'' 3,
      mkRow 4 ''N'' ''43A'' 5,
      mkRow 5 ''X'' ''N'' 7]"


definition rule_rows_text :: "row list" where
  "rule_rows_text =
     [mkRow 1 ''R'' [] 1,
      (mkRow 2 ''DCS1'' ''R'' 1)\<lparr>Unit_Usg := NumericText 0\<rparr>,
      mkRow 3 ''M'' ''DCS1'' 3,
      mkRow 4 ''X'' ''M'' 5]"

section \<open>Notions of the specification\<close>



section \<open>Input columns\<close>

text \<open>The columns of a row that the resolution reads; \<open>process\<close> writes none of them.\<close>

definition inputColumns :: "row \<Rightarrow> int \<times> nat \<times> string \<times> string \<times> cell" where
  "inputColumns r = (LV r, LN r, Material r, Part_Number r, Unit_Usg r)"

section \<open>The upward walk\<close>

text \<open>
  The parent row the traversal seeks for a located row \<open>x\<close>: none when the level is not
  positive or the parent reference is empty (the traversal returns there), otherwise the
  result of the lookup of the trimmed parent reference below the row's own sequence; a
  lookup that throws finds none.
\<close>

definition parentOf :: "processor \<Rightarrow> nat \<Rightarrow> nat option" where
  "parentOf p x =
     (let r = data p ! x
      in if lvOrMinus1 r \<le> 0 \<or> Part_Number r = [] then None
         else (case findMaterialBeforeLN p (trim (Part_Number r)) (LN r) of
                 Inl e \<Rightarrow> None
               | Inr found \<Rightarrow> found))"

text \<open>
  An ancestor the traversal passes over: it goes on upward from it and lets the result of
  the walk above decide. That is an ancestor that matches the primary pattern and is
  class A, or one that matches neither the primary pattern nor a special rule. At any other
  ancestor the traversal returns that ancestor's material.
\<close>

definition walkedOver :: "processor \<Rightarrow> nat \<Rightarrow> bool" where
  "walkedOver p y =
     (let r = data p ! y
      in if matchesPattern p (Material r) then is43Pattern (Material r)
         else \<not> matchesLVSpecialRule p (lvOrMinus1 r) (Material r))"


text \<open>
  \<open>walkEndsAt p x ys g\<close>: the ancestors of row \<open>x\<close>, nearest first, are \<open>ys\<close> and then \<open>g\<close>; the
  rows \<open>ys\<close> are passed over and \<open>g\<close> is the first that is not.
  \<open>walkRunsOut p x ys\<close>: the ancestors of \<open>x\<close> are \<open>ys\<close>, all are passed over, and the last one
  has no parent.
\<close>

fun walkEndsAt :: "processor \<Rightarrow> nat \<Rightarrow> nat list \<Rightarrow> nat \<Rightarrow> bool" where
  "walkEndsAt p x [] g = (parentOf p x = Some g \<and> \<not> walkedOver p g)"
| "walkEndsAt p x (y # ys) g = (parentOf p x = Some y \<and> walkedOver p y \<and> walkEndsAt p y ys g)"



text \<open>The material codes by which the ancestors \<open>ys\<close> of \<open>x\<close> are looked up, in order.\<close>

fun lookedUp :: "processor \<Rightarrow> nat \<Rightarrow> nat list \<Rightarrow> string list" where
  "lookedUp p x [] = []"
| "lookedUp p x (y # ys) = trim (Part_Number (data p ! x)) # lookedUp p y ys"

section \<open>Auxiliary facts\<close>

subsection \<open>Induction on the remaining depth\<close>

lemma depth_induct [case_names step]:
  assumes step: "\<And>d. (\<And>d'. d < d' \<Longrightarrow> d' \<le> Suc md \<Longrightarrow> P d') \<Longrightarrow> P d"
  shows "P (d::nat)"
proof -
  have "Suc md - d \<le> n \<Longrightarrow> P d" for n d
  proof (induction n arbitrary: d)
    case 0
    show ?case
    proof (rule step)
      fix d' assume "d < d'" "d' \<le> Suc md"
      with 0 show "P d'" by simp
    qed
  next
    case (Suc n)
    show ?case
    proof (rule step)
      fix d' assume "d < d'" "d' \<le> Suc md"
      with Suc.prems have "Suc md - d' \<le> n" by arith
      then show "P d'" by (rule Suc.IH)
    qed
  qed
  then show ?thesis by blast
qed

subsection \<open>Renumbering and the index\<close>

lemma reindexLN_from_length: "length (reindexLN_from k rows) = length rows"
  by (induction rows arbitrary: k) simp_all

lemma reindexLN_from_nth:
  "i < length rows \<Longrightarrow> reindexLN_from k rows ! i = (rows ! i)\<lparr>LN := k + i\<rparr>"
proof (induction rows arbitrary: k i)
  case Nil
  then show ?case by simp
next
  case (Cons r rs)
  then show ?case by (cases i) simp_all
qed

lemma reindexLN_length: "length (reindexLN rows) = length rows"
  by (simp add: reindexLN_def reindexLN_from_length)

lemma reindexLN_nth: "i < length rows \<Longrightarrow> reindexLN rows ! i = (rows ! i)\<lparr>LN := Suc i\<rparr>"
  by (auto simp: reindexLN_def reindexLN_from_nth)

lemma fold_indexStep:
  "fold (indexStep rows) [0..<k] Map.empty m =
     (if m \<noteq> [] \<and> filter (\<lambda>i. trim (Material (rows ! i)) = m) [0..<k] \<noteq> []
      then Some (filter (\<lambda>i. trim (Material (rows ! i)) = m) [0..<k]) else None)"
proof (induction k)
  case 0
  then show ?case by simp
next
  case (Suc k)
  then show ?case
    by (auto simp: indexStep_def Let_def split: option.splits)
qed

lemma buildMaterialIndex_eq:
  "buildMaterialIndex rows m =
     (if m \<noteq> [] \<and> filter (\<lambda>i. trim (Material (rows ! i)) = m) [0..<length rows] \<noteq> []
      then Some (filter (\<lambda>i. trim (Material (rows ! i)) = m) [0..<length rows]) else None)"
  unfolding buildMaterialIndex_def by (rule fold_indexStep)

lemma constructor_data: "data (constructor c rows pat rules) = reindexLN rows"
  by (simp add: constructor_def Let_def)

lemma constructor_length: "length (data (constructor c rows pat rules)) = length rows"
  by (simp add: constructor_data reindexLN_length)

lemma constructor_nth:
  "i < length rows \<Longrightarrow> data (constructor c rows pat rules) ! i = (rows ! i)\<lparr>LN := Suc i\<rparr>"
  by (simp add: constructor_data reindexLN_nth)

lemma constructor_index:
  "materialIndex (constructor c rows pat rules) = buildMaterialIndex (reindexLN rows)"
  by (simp add: constructor_def Let_def)

subsection \<open>The backward scan\<close>

lemma scanBefore_filter:
  "(\<And>idx. idx \<in> set l \<Longrightarrow> idx < length rows) \<Longrightarrow> k \<le> length l \<Longrightarrow>
   scanBefore rows l b k =
     Inr (if filter (\<lambda>idx. LN (rows ! idx) < b) (take k l) = [] then None
          else Some (last (filter (\<lambda>idx. LN (rows ! idx) < b) (take k l))))"
proof (induction k)
  case 0
  then show ?case by simp
next
  case (Suc k)
  then show ?case by (simp add: take_Suc_conv_app_nth Let_def)
qed

lemma filter_upt_empty: "filter R [0..<n] = [] \<longleftrightarrow> (\<forall>j<n. \<not> R j)"
  by (auto simp: filter_empty_conv)

lemma last_filter_upt:
  "filter R [0..<n] \<noteq> [] \<Longrightarrow>
   last (filter R [0..<n]) = i \<longleftrightarrow> i < n \<and> R i \<and> (\<forall>j<n. R j \<longrightarrow> j \<le> i)"
proof (induction n arbitrary: i)
  case 0
  then show ?case by simp
next
  case (Suc n)
  show ?case
  proof (cases "R n")
    case True
    then show ?thesis by (auto simp: less_Suc_eq)
  next
    case False
    with Suc.prems have ne: "filter R [0..<n] \<noteq> []" by simp
    from False Suc.IH[OF ne] show ?thesis by (auto simp: less_Suc_eq)
  qed
qed

text \<open>The resolver of a constructed processor, in closed form.\<close>

lemma find_constructed:
  "findMaterialBeforeLN (constructor c rows pat rules) m b =
     Inr (let hits = filter (\<lambda>i. trim (Material (rows ! i)) = m \<and> Suc i < b) [0..<length rows]
          in if m = [] \<or> hits = [] then None else Some (last hits))"
proof -
  let ?d = "reindexLN rows"
  let ?Q = "\<lambda>i. trim (Material (?d ! i)) = m"
  have f1: "filter ?Q [0..<length ?d] = filter (\<lambda>i. trim (Material (rows ! i)) = m) [0..<length rows]"
    by (rule filter_cong) (simp_all add: reindexLN_length reindexLN_nth)
  have f2: "filter (\<lambda>x. trim (Material (rows ! x)) = m \<and> LN (?d ! x) < b) [0..<length rows]
        = filter (\<lambda>i. trim (Material (rows ! i)) = m \<and> Suc i < b) [0..<length rows]"
    by (rule filter_cong) (auto simp: reindexLN_nth)
  have f3: "filter (\<lambda>i. trim (Material (rows ! i)) = m \<and> Suc i < b) [0..<length rows] \<noteq> []
     \<Longrightarrow> filter (\<lambda>i. trim (Material (rows ! i)) = m) [0..<length rows] \<noteq> []"
    by (auto simp: filter_empty_conv)
  have f4: "scanBefore ?d (filter (\<lambda>i. trim (Material (rows ! i)) = m) [0..<length rows]) b
              (length (filter (\<lambda>i. trim (Material (rows ! i)) = m) [0..<length rows]))
        = Inr (if filter (\<lambda>i. trim (Material (rows ! i)) = m \<and> Suc i < b) [0..<length rows] = [] then None
               else Some (last (filter (\<lambda>i. trim (Material (rows ! i)) = m \<and> Suc i < b) [0..<length rows])))"
    by (subst scanBefore_filter) (simp_all add: reindexLN_length f2)
  show ?thesis
    unfolding findMaterialBeforeLN_def constructor_index constructor_data
    using f3 by (auto simp: buildMaterialIndex_eq f1 f4 Let_def)
qed

lemma find_constructed_Some:
  "findMaterialBeforeLN (constructor c rows pat rules) m b = Inr (Some i) \<longleftrightarrow>
     i < length rows \<and> m \<noteq> [] \<and> trim (Material (rows ! i)) = m \<and> Suc i < b \<and>
     (\<forall>j<length rows. trim (Material (rows ! j)) = m \<and> Suc j < b \<longrightarrow> j \<le> i)"
proof -
  let ?R = "\<lambda>i. trim (Material (rows ! i)) = m \<and> Suc i < b"
  show ?thesis
  proof (cases "m = [] \<or> filter ?R [0..<length rows] = []")
    case True
    then show ?thesis
      by (auto simp: find_constructed filter_upt_empty)
  next
    case False
    then have ne: "filter ?R [0..<length rows] \<noteq> []" and m: "m \<noteq> []" by simp_all
    show ?thesis
      using last_filter_upt[OF ne, of i] m ne by (auto simp: find_constructed)
  qed
qed

lemma find_constructed_Inr:
  "findMaterialBeforeLN (constructor c rows pat rules) m b \<noteq> Inl e"
  by (simp add: find_constructed)

lemma find_constructed_None:
  "findMaterialBeforeLN (constructor c rows pat rules) m b = Inr None \<longleftrightarrow>
     m = [] \<or> (\<forall>j<length rows. \<not> (trim (Material (rows ! j)) = m \<and> Suc j < b))"
  by (auto simp: find_constructed filter_upt_empty Let_def)

subsection \<open>The visited set\<close>

lemma traverse_snd: "snd (traverseHierarchyUnified p s u d md b vis) = vis"
proof (induction d arbitrary: s u b vis rule: depth_induct[where md = md])
  case (step d)
  show ?case
  proof (cases "md < d")
    case True
    then show ?thesis by (subst traverseHierarchyUnified.simps) simp
  next
    case False
    then have IH: "\<And>s' u' b' vis'. snd (traverseHierarchyUnified p s' u' (Suc d) md b' vis') = vis'"
      using step.IH[of "Suc d"] by simp
    show ?thesis
      by (subst traverseHierarchyUnified.simps)
         (simp add: Let_def split_beta IH split: option.split sum.split)
  qed
qed

subsection \<open>One step of the traversal\<close>

lemma traverse_no_current:
  "findMaterialBeforeLN p s b = Inr None \<or> findMaterialBeforeLN p s b = Inl e \<Longrightarrow>
   traverseHierarchyUnified p s u d md b vis = ((s, u), vis)"
  by (subst traverseHierarchyUnified.simps) auto

lemma traverse_seen:
  "s \<in> vis \<Longrightarrow> traverseHierarchyUnified p s u d md b vis = ((s, u), vis)"
  by (subst traverseHierarchyUnified.simps) (simp add: Let_def split: option.split sum.split)

lemma traverse_top:
  "findMaterialBeforeLN p s b = Inr (Some cidx) \<Longrightarrow>
   lvOrMinus1 (data p ! cidx) \<le> 0 \<or> Part_Number (data p ! cidx) = [] \<Longrightarrow>
   traverseHierarchyUnified p s u d md b vis = ((s, u), vis)"
  by (subst traverseHierarchyUnified.simps) (auto simp: Let_def)

lemma traverse_no_parent:
  "findMaterialBeforeLN p s b = Inr (Some cidx) \<Longrightarrow>
   findMaterialBeforeLN p (trim (Part_Number (data p ! cidx))) (LN (data p ! cidx)) = Inr None
   \<or> findMaterialBeforeLN p (trim (Part_Number (data p ! cidx))) (LN (data p ! cidx)) = Inl e \<Longrightarrow>
   traverseHierarchyUnified p s u d md b vis = ((s, u), vis)"
  by (subst traverseHierarchyUnified.simps) (auto simp: Let_def)

lemma traverse_cascade:
  assumes "d \<le> md"
    and "findMaterialBeforeLN p s b = Inr (Some cidx)"
    and "s \<notin> vis"
    and "0 < lvOrMinus1 (data p ! cidx)"
    and "Part_Number (data p ! cidx) \<noteq> []"
    and "findMaterialBeforeLN p (trim (Part_Number (data p ! cidx))) (LN (data p ! cidx)) = Inr (Some pidx)"
  shows "traverseHierarchyUnified p s u d md b vis =
     (let parentRow = data p ! pidx;
          newUsage = u * unitUsgOf parentRow;
          up = fst (traverseHierarchyUnified p (trim (Part_Number (data p ! cidx))) newUsage
                      (Suc d) md (LN (data p ! cidx)) (insert s vis))
      in if matchesPattern p (Material parentRow) then
           (if is43Pattern (Material parentRow) \<and> is45Pattern (fst up) then (up, vis)
            else ((Material parentRow, snd up), vis))
         else if matchesLVSpecialRule p (lvOrMinus1 parentRow) (Material parentRow) then
           ((Material parentRow, newUsage), vis)
         else (up, vis))"
  using assms
  by (subst traverseHierarchyUnified.simps)
     (simp add: Let_def split_beta traverse_snd)

subsection \<open>The rule set\<close>


subsection \<open>Two processors that agree below a bound\<close>

lemma inputColumns_eq:
  "inputColumns r = inputColumns r' \<Longrightarrow>
     LV r = LV r' \<and> LN r = LN r' \<and> Material r = Material r' \<and> Part_Number r = Part_Number r'
     \<and> lvOrMinus1 r = lvOrMinus1 r' \<and> unitUsgOf r = unitUsgOf r'"
  by (simp add: inputColumns_def lvOrMinus1_def unitUsgOf_def)

lemma matchesPattern_cong:
  "materialPattern P = materialPattern Q \<Longrightarrow> matchesPattern P = matchesPattern Q"
  by (simp add: matchesPattern_def fun_eq_iff)

lemma matchesLVSpecialRule_cong:
  "lvSpecialRules P = lvSpecialRules Q \<Longrightarrow> matchesLVSpecialRule P = matchesLVSpecialRule Q"
  by (simp add: matchesLVSpecialRule_def fun_eq_iff)

lemma traverse_agree:
  assumes pat: "materialPattern P = materialPattern Q"
    and rules: "lvSpecialRules P = lvSpecialRules Q"
    and find: "\<And>m b'. b' \<le> B \<Longrightarrow> findMaterialBeforeLN Q m b' = findMaterialBeforeLN P m b'"
    and rows: "\<And>m b' i. b' \<le> B \<Longrightarrow> findMaterialBeforeLN P m b' = Inr (Some i) \<Longrightarrow>
                 LN (data P ! i) < b' \<and> inputColumns (data Q ! i) = inputColumns (data P ! i)"
  shows "b \<le> B \<Longrightarrow>
         traverseHierarchyUnified P s u d md b vis = traverseHierarchyUnified Q s u d md b vis"
proof (induction d arbitrary: s u b vis rule: depth_induct[where md = md])
  case (step d)
  note b = \<open>b \<le> B\<close>
  show ?case
  proof (cases "md < d")
    case True
    then show ?thesis
      by (simp add: traverseHierarchyUnified.simps[of _ s u d md b vis])
  next
    case False
    then have d: "d \<le> md" by simp
    have IH: "\<And>s' u' b' vis'. b' \<le> B \<Longrightarrow>
        traverseHierarchyUnified P s' u' (Suc d) md b' vis' = traverseHierarchyUnified Q s' u' (Suc d) md b' vis'"
      using step.IH[of "Suc d"] d by simp
    show ?thesis
    proof (cases "findMaterialBeforeLN P s b")
      case (Inl e)
      with find[OF b, of s] show ?thesis by (simp add: traverse_no_current)
    next
      case (Inr found)
      show ?thesis
      proof (cases found)
        case None
        with Inr find[OF b, of s] show ?thesis by (simp add: traverse_no_current)
      next
        case (Some cidx)
        with Inr have SomeP: "findMaterialBeforeLN P s b = Inr (Some cidx)" by simp
        then have SomeQ: "findMaterialBeforeLN Q s b = Inr (Some cidx)" using find[OF b, of s] by simp
        from rows[OF b SomeP] have lt: "LN (data P ! cidx) < b"
          and cols: "inputColumns (data Q ! cidx) = inputColumns (data P ! cidx)" by simp_all
        note c = inputColumns_eq[OF cols]
        from lt b have b1: "LN (data P ! cidx) \<le> B" by simp
        show ?thesis
        proof (cases "s \<in> vis")
          case True
          then show ?thesis by (simp add: traverse_seen)
        next
          case notin: False
          show ?thesis
          proof (cases "lvOrMinus1 (data P ! cidx) \<le> 0 \<or> Part_Number (data P ! cidx) = []")
            case True
            then have "lvOrMinus1 (data Q ! cidx) \<le> 0 \<or> Part_Number (data Q ! cidx) = []"
              using c by simp
            with True SomeP SomeQ show ?thesis by (simp add: traverse_top)
          next
            case False
            then have lv: "0 < lvOrMinus1 (data P ! cidx)" and pn: "Part_Number (data P ! cidx) \<noteq> []"
              by simp_all
            from lv pn c have lvQ: "0 < lvOrMinus1 (data Q ! cidx)" and pnQ: "Part_Number (data Q ! cidx) \<noteq> []"
              by simp_all
            let ?pm = "trim (Part_Number (data P ! cidx))"
            let ?ln = "LN (data P ! cidx)"
            have pmQ: "trim (Part_Number (data Q ! cidx)) = ?pm" and lnQ: "LN (data Q ! cidx) = ?ln"
              using c by simp_all
            have findQ: "findMaterialBeforeLN Q (trim (Part_Number (data Q ! cidx))) (LN (data Q ! cidx))
                = findMaterialBeforeLN P ?pm ?ln"
              using find[OF b1, of ?pm] by (simp add: pmQ lnQ)
            show ?thesis
            proof (cases "findMaterialBeforeLN P ?pm ?ln")
              case (Inl e)
              with findQ show ?thesis
                using traverse_no_parent[OF SomeP, of e] traverse_no_parent[OF SomeQ, of e] by simp
            next
              case Inr2: (Inr found2)
              show ?thesis
              proof (cases found2)
                case None
                with Inr2 findQ show ?thesis
                  using traverse_no_parent[OF SomeP] traverse_no_parent[OF SomeQ] by simp
              next
                case (Some pidx)
                with Inr2 have SomeP2: "findMaterialBeforeLN P ?pm ?ln = Inr (Some pidx)" by simp
                with findQ have SomeQ2:
                  "findMaterialBeforeLN Q (trim (Part_Number (data Q ! cidx))) (LN (data Q ! cidx)) = Inr (Some pidx)"
                  by simp
                from rows[OF b1 SomeP2] have cols2: "inputColumns (data Q ! pidx) = inputColumns (data P ! pidx)"
                  by simp
                note c2 = inputColumns_eq[OF cols2]
                show ?thesis
                  unfolding traverse_cascade[OF d SomeP notin lv pn SomeP2]
                    traverse_cascade[OF d SomeQ notin lvQ pnQ SomeQ2]
                  by (simp add: Let_def c c2 IH[OF b1] matchesPattern_cong[OF pat]
                        matchesLVSpecialRule_cong[OF rules])
              qed
            qed
          qed
        qed
      qed
    qed
  qed
qed

lemma processRow_agree:
  assumes pat: "materialPattern P = materialPattern Q"
    and rules: "lvSpecialRules P = lvSpecialRules Q"
    and find: "\<And>m b'. b' \<le> LN r \<Longrightarrow> findMaterialBeforeLN Q m b' = findMaterialBeforeLN P m b'"
    and rows: "\<And>m b' i. b' \<le> LN r \<Longrightarrow> findMaterialBeforeLN P m b' = Inr (Some i) \<Longrightarrow>
                 LN (data P ! i) < b' \<and> inputColumns (data Q ! i) = inputColumns (data P ! i)"
    and cols: "inputColumns r' = inputColumns r"
  shows "processRow Q r' vis = processRow P r vis"
proof -
  have T: "\<And>s u. traverseHierarchyUnified Q s u 0 20 (LN r) {} = traverseHierarchyUnified P s u 0 20 (LN r) {}"
    using traverse_agree[where B = "LN r" and b = "LN r", OF pat rules find rows] by simp
  note c = inputColumns_eq[OF cols]
  show ?thesis
    unfolding processRow_def
    by (simp add: Let_def c T matchesPattern_cong[OF pat] matchesLVSpecialRule_cong[OF rules])
qed

lemma processRow_fst_vis: "fst (processRow p r vis) = fst (processRow p r vis')"
  by (simp add: processRow_def Let_def split_beta)

subsection \<open>Tables that agree before a position\<close>







subsection \<open>The result columns\<close>

lemma processRows_fst:
  "fst (processRows p rows vis) = map (\<lambda>r. fst (processRow p r {})) rows"
proof (induction rows arbitrary: vis)
  case Nil
  then show ?case by simp
next
  case (Cons r rs)
  then show ?case
    using processRow_fst_vis[of p r vis "{}"] by (simp add: split_beta)
qed

lemma writeResults_length: "length (writeResults rows results) = length rows"
  by (induction rows results rule: writeResults.induct) simp_all

lemma writeResults_nth:
  "i < length rows \<Longrightarrow> i < length results \<Longrightarrow>
   writeResults rows results ! i
     = (rows ! i)\<lparr>SYS_CPN := Some (fst (results ! i)), Ttl_Usage := Some (snd (results ! i))\<rparr>"
proof (induction rows results arbitrary: i rule: writeResults.induct)
  case (1 results)
  then show ?case by simp
next
  case (2 r rs)
  then show ?case by simp
next
  case (3 r rs sysCpn ttlUsage results)
  then show ?case by (cases i) simp_all
qed

lemma process_data:
  "data (process p) = writeResults (data p) (map (\<lambda>r. fst (processRow p r {})) (data p))"
  by (simp add: process_def split_beta processRows_fst)

lemma process_fields:
  "materialPattern (process p) = materialPattern p"
  "lvSpecialRules (process p) = lvSpecialRules p"
  "materialIndex (process p) = materialIndex p"
  by (simp_all add: process_def split_beta)

lemma process_length: "length (data (process p)) = length (data p)"
  by (simp add: process_data writeResults_length)

lemma process_nth:
  "i < length (data p) \<Longrightarrow>
   data (process p) ! i
     = (data p ! i)\<lparr>SYS_CPN := Some (fst (fst (processRow p (data p ! i) {}))),
                     Ttl_Usage := Some (snd (fst (processRow p (data p ! i) {})))\<rparr>"
  by (simp add: process_data writeResults_nth)

lemma process_inputColumns:
  "i < length (data p) \<Longrightarrow> inputColumns (data (process p) ! i) = inputColumns (data p ! i)"
  by (simp add: process_nth inputColumns_def)

lemma scanBefore_cong:
  "length rows' = length rows \<Longrightarrow>
   (\<And>idx. idx \<in> set l \<Longrightarrow> LN (rows' ! idx) = LN (rows ! idx)) \<Longrightarrow> k \<le> length l \<Longrightarrow>
   scanBefore rows' l b k = scanBefore rows l b k"
  by (induction k) (simp_all add: Let_def)

lemma constructor_index_wf:
  assumes "materialIndex (constructor c rows pat rules) m = Some l" and "idx \<in> set l"
  shows "idx < length rows"
  using assms
  by (auto simp: constructor_index buildMaterialIndex_eq reindexLN_length split: if_splits)

lemma find_process:
  "findMaterialBeforeLN (process (constructor c rows pat rules)) m b
     = findMaterialBeforeLN (constructor c rows pat rules) m b"
proof (cases "materialIndex (constructor c rows pat rules) m")
  case None
  then show ?thesis by (simp add: findMaterialBeforeLN_def process_fields)
next
  case (Some l)
  have "scanBefore (data (process (constructor c rows pat rules))) l b (length l)
      = scanBefore (data (constructor c rows pat rules)) l b (length l)"
  proof (rule scanBefore_cong)
    show "length (data (process (constructor c rows pat rules))) = length (data (constructor c rows pat rules))"
      by (rule process_length)
  next
    fix idx assume "idx \<in> set l"
    from constructor_index_wf[OF Some this] have "idx < length (data (constructor c rows pat rules))"
      by (simp add: constructor_length)
    from process_inputColumns[OF this]
    show "LN (data (process (constructor c rows pat rules)) ! idx)
            = LN (data (constructor c rows pat rules) ! idx)"
      by (simp add: inputColumns_def)
  qed simp
  with Some show ?thesis by (simp add: findMaterialBeforeLN_def process_fields)
qed

lemma processRow_process:
  assumes "i < length rows"
  shows "processRow (process (constructor c rows pat rules))
           (data (process (constructor c rows pat rules)) ! i) vis
       = processRow (constructor c rows pat rules) (data (constructor c rows pat rules) ! i) vis"
proof (rule processRow_agree)
  let ?P = "constructor c rows pat rules"
  show "materialPattern ?P = materialPattern (process ?P)" by (simp add: process_fields)
  show "lvSpecialRules ?P = lvSpecialRules (process ?P)" by (simp add: process_fields)
  show "inputColumns (data (process ?P) ! i) = inputColumns (data ?P ! i)"
    using assms by (simp add: process_inputColumns constructor_length)
  show "findMaterialBeforeLN (process ?P) m b' = findMaterialBeforeLN ?P m b'" for m b'
    by (rule find_process)
  show "LN (data ?P ! j) < b' \<and> inputColumns (data (process ?P) ! j) = inputColumns (data ?P ! j)"
    if "findMaterialBeforeLN ?P m b' = Inr (Some j)" for m b' j
  proof -
    from that have j: "j < length rows" and jb: "Suc j < b'"
      unfolding find_constructed_Some by simp_all
    then show ?thesis by (simp add: process_inputColumns constructor_length constructor_nth)
  qed
qed

lemma process_twice_data:
  "data (process (process (constructor c rows pat rules))) = data (process (constructor c rows pat rules))"
proof (rule nth_equalityI)
  let ?P = "constructor c rows pat rules"
  show "length (data (process (process ?P))) = length (data (process ?P))"
    by (simp add: process_length)
  fix i assume "i < length (data (process (process ?P)))"
  then have i: "i < length rows" by (simp add: process_length constructor_length)
  then have i1: "i < length (data ?P)" and i2: "i < length (data (process ?P))"
    by (simp_all add: process_length constructor_length)
  show "data (process (process ?P)) ! i = data (process ?P) ! i"
    unfolding process_nth[OF i2] processRow_process[OF i]
    unfolding process_nth[OF i1] by simp
qed

subsection \<open>Writes to the store\<close>

lemma reindexLN_refs_length: "length (reindexLN_refs h k refs) = length h"
  by (induction refs arbitrary: h k) simp_all

lemma reindexLN_refs_frame: "a \<notin> set refs \<Longrightarrow> reindexLN_refs h k refs ! a = h ! a"
  by (induction refs arbitrary: h k) auto

lemma writeResults_refs_length: "length (writeResults_refs h refs results) = length h"
  by (induction h refs results rule: writeResults_refs.induct) simp_all

lemma writeResults_refs_frame: "a \<notin> set refs \<Longrightarrow> writeResults_refs h refs results ! a = h ! a"
  by (induction h refs results rule: writeResults_refs.induct) auto

lemma snapshot_frame: "(\<And>a. a \<in> set table \<Longrightarrow> h' ! a = h ! a) \<Longrightarrow> snapshot h' table = snapshot h table"
  by (simp add: snapshot_def)

lemma snapshot_simps:
  "snapshot h [] = []"
  "snapshot h (a # as) = h ! a # snapshot h as"
  by (simp_all add: snapshot_def)

lemma snapshot_update: "a \<notin> set table \<Longrightarrow> snapshot (h[a := x]) table = snapshot h table"
  by (induction table) (auto simp: snapshot_def)

lemma reindexLN_refs_snapshot:
  "distinct refs \<Longrightarrow> (\<And>a. a \<in> set refs \<Longrightarrow> a < length h) \<Longrightarrow>
   snapshot (reindexLN_refs h k refs) refs = reindexLN_from k (snapshot h refs)"
proof (induction refs arbitrary: h k)
  case Nil
  then show ?case by (simp add: snapshot_simps)
next
  case (Cons a as)
  let ?h = "h[a := (h ! a)\<lparr>LN := k\<rparr>]"
  from Cons.prems have a: "a \<notin> set as" "a < length h" and d: "distinct as" by simp_all
  have "snapshot (reindexLN_refs ?h (Suc k) as) as = reindexLN_from (Suc k) (snapshot ?h as)"
    using Cons.prems by (intro Cons.IH d) simp
  moreover have "snapshot ?h as = snapshot h as"
    using a by (simp add: snapshot_update)
  moreover have "reindexLN_refs ?h (Suc k) as ! a = (h ! a)\<lparr>LN := k\<rparr>"
    using a by (simp add: reindexLN_refs_frame)
  ultimately show ?case by (simp add: snapshot_simps)
qed

lemma writeResults_refs_snapshot:
  "distinct refs \<Longrightarrow> (\<And>a. a \<in> set refs \<Longrightarrow> a < length h) \<Longrightarrow>
   snapshot (writeResults_refs h refs results) refs = writeResults (snapshot h refs) results"
proof (induction h refs results rule: writeResults_refs.induct)
  case (1 h results)
  then show ?case by (simp add: snapshot_simps)
next
  case (2 h a as)
  let ?h = "h[a := (h ! a)\<lparr>SYS_CPN := None, Ttl_Usage := None\<rparr>]"
  from "2.prems" have a: "a \<notin> set as" "a < length h" and d: "distinct as" by simp_all
  have "snapshot (writeResults_refs ?h as []) as = writeResults (snapshot ?h as) []"
    using "2.prems" by (intro "2.IH" d) simp
  moreover have "snapshot ?h as = snapshot h as"
    using a by (simp add: snapshot_update)
  moreover have "writeResults_refs ?h as [] ! a = ?h ! a"
    using a by (simp add: writeResults_refs_frame)
  ultimately show ?case using a by (simp add: snapshot_simps)
next
  case (3 h a as sysCpn ttlUsage results)
  let ?h = "h[a := (h ! a)\<lparr>SYS_CPN := Some sysCpn, Ttl_Usage := Some ttlUsage\<rparr>]"
  from "3.prems" have a: "a \<notin> set as" "a < length h" and d: "distinct as" by simp_all
  have "snapshot (writeResults_refs ?h as results) as = writeResults (snapshot ?h as) results"
    using "3.prems" by (intro "3.IH" d) simp
  moreover have "snapshot ?h as = snapshot h as"
    using a by (simp add: snapshot_update)
  moreover have "writeResults_refs ?h as results ! a = ?h ! a"
    using a by (simp add: writeResults_refs_frame)
  ultimately show ?case using a by (simp add: snapshot_simps)
qed


lemma snapshot_append_fresh: "snapshot (h @ xs) [length h..<length h + length xs] = xs"
  by (rule nth_equalityI) (simp_all add: snapshot_def nth_append)

lemma constructor_store_eq:
  "constructor_store compile h table pat rules =
     (if length table = 0 then h @ snapshot h table
      else reindexLN_refs (h @ snapshot h table) 1 [length h..<length h + length table],
      [length h..<length h + length table],
      constructor compile (snapshot h table) pat rules)"
  by (simp add: constructor_store_def deepCopy_def)

lemma constructor_store_frame:
  "a < length h \<Longrightarrow> fst (constructor_store compile h table pat rules) ! a = h ! a"
  by (simp add: constructor_store_eq reindexLN_refs_frame nth_append)

lemma constructor_store_length:
  "length (fst (constructor_store compile h table pat rules)) = length h + length table"
  by (simp add: constructor_store_eq reindexLN_refs_length snapshot_def)

lemma constructor_store_snapshot:
  "snapshot (fst (constructor_store compile h table pat rules))
            (fst (snd (constructor_store compile h table pat rules)))
     = data (snd (snd (constructor_store compile h table pat rules)))"
proof (cases "length table = 0")
  case True
  then show ?thesis
    by (simp add: constructor_store_eq constructor_data reindexLN_def snapshot_def)
next
  case False
  let ?refs = "[length h..<length h + length table]"
  have len: "length (snapshot h table) = length table" by (simp add: snapshot_def)
  have "snapshot (reindexLN_refs (h @ snapshot h table) 1 ?refs) ?refs
          = reindexLN_from 1 (snapshot (h @ snapshot h table) ?refs)"
    by (rule reindexLN_refs_snapshot) (simp_all add: len)
  also have "snapshot (h @ snapshot h table) ?refs = snapshot h table"
    using snapshot_append_fresh[of h "snapshot h table"] by (simp add: len)
  finally show ?thesis
    using False by (simp add: constructor_store_eq constructor_data reindexLN_def len)
qed

lemma process_store_frame:
  "a \<notin> set refs \<Longrightarrow> fst (process_store (h, refs, p)) ! a = h ! a"
  by (simp add: process_store_def writeResults_refs_frame)

lemma process_store_snapshot:
  assumes "distinct refs" and "\<And>a. a \<in> set refs \<Longrightarrow> a < length h" and "snapshot h refs = data p"
  shows "snapshot (fst (process_store (h, refs, p))) refs = data (process p)"
  using writeResults_refs_snapshot[OF assms(1,2)] assms(3)
  by (simp add: process_store_def process_def split_beta)

lemma process_store_parts:
  "fst (snd (process_store st)) = fst (snd st)"
  "snd (snd (process_store st)) = process (snd (snd st))"
  "length (fst (process_store st)) = length (fst st)"
  by (simp_all add: process_store_def split_beta writeResults_refs_length)

subsection \<open>A located row and the rows before it\<close>



subsection \<open>The walk along a chain of ancestors\<close>








subsection \<open>Reading the unit usage\<close>

lemma unitUsgOf_cell:
  "unitUsgOf (r\<lparr>Unit_Usg := Absent\<rparr>) = 1"
  "unitUsgOf (r\<lparr>Unit_Usg := OtherText\<rparr>) = 1"
  "unitUsgOf (r\<lparr>Unit_Usg := Number 0\<rparr>) = 1"
  "x \<noteq> 0 \<Longrightarrow> unitUsgOf (r\<lparr>Unit_Usg := Number x\<rparr>) = x"
  "unitUsgOf (r\<lparr>Unit_Usg := NumericText x\<rparr>) = x"
  by (simp_all add: unitUsgOf_def)

section \<open>The scenario of the specification\<close>

text \<open>
  Claim C1. For the table \<open>scenario_rows\<close>, pattern \<open>45\<close> and no special rules, the claim
  expects \<open>ROOT\<close> to resolve to (\<open>ROOT\<close>, 1), \<open>45ABC\<close> to (\<open>45ABC\<close>, 2) and \<open>X1\<close> to
  (\<open>45ABC\<close>, 10), the product of the unit usages on the chain. The processor gives the
  first two rows as expected and gives \<open>X1\<close> the total usage 5: the walk for \<open>X1\<close> starts at
  its parent \<open>45ABC\<close> with the unit usage 5 of \<open>X1\<close> and multiplies by the unit usage of the
  rows above \<open>45ABC\<close> only, so the unit usage 2 of \<open>45ABC\<close> never enters the product.
\<close>

theorem scenario_result:
  "map (\<lambda>r. (Material r, SYS_CPN r, Ttl_Usage r))
       (data (process (constructor RegExp_literal scenario_rows ''45'' NoRules)))
   = [(''ROOT'', Some ''ROOT'', Some 1),
      (''45ABC'', Some ''45ABC'', Some 2),
      (''X1'', Some ''45ABC'', Some 5)]"
  by code_simp

section \<open>The tie-break chain\<close>

text \<open>
  Claim C2. For the chain \<open>X\<close> (level 4) under \<open>43A\<close> (level 3) under \<open>45B\<close> (level 2) under
  the root, with a pattern that matches both prefixes, the claim expects \<open>X\<close> to resolve
  to \<open>45B\<close> with the product of the unit usages of \<open>X\<close>, \<open>43A\<close> and \<open>45B\<close> (here 5, 3 and
  2, product 30; the root has unit usage 1). The processor resolves \<open>X\<close> to \<open>43A\<close>: the
  parent reference of \<open>X\<close> matches the pattern, and \<open>process\<close> takes it as the system
  component without looking for a \<open>45\<close> above it. The total usage is 10, the unit usage of
  \<open>X\<close> times those of \<open>45B\<close> and the root; the unit usage of \<open>43A\<close> is skipped.
\<close>

theorem tiebreak_result:
  "map (\<lambda>r. (Material r, SYS_CPN r, Ttl_Usage r))
       (data (process (constructor RegExp_literal tiebreak_rows ''43|45'' NoRules)))
   = [(''ROOT'', Some ''ROOT'', Some 1),
      (''45B'', Some ''45B'', Some 2),
      (''43A'', Some ''43A'', Some 3),
      (''X'', Some ''43A'', Some 10)]"
  by code_simp

text \<open>
  In \<open>supersede_rows\<close> the part \<open>N\<close> directly under \<open>43A\<close> resolves to \<open>43A\<close>, while its own child
  \<open>X\<close>, resolved by the traversal, resolves to \<open>45B\<close>.
\<close>

lemma supersede_process_result:
  "map (\<lambda>r. (Material r, SYS_CPN r, Ttl_Usage r))
       (data (process (constructor RegExp_literal supersede_rows ''43|45'' NoRules)))
   = [(''ROOT'', Some ''ROOT'', Some 1),
      (''45B'', Some ''45B'', Some 2),
      (''43A'', Some ''43A'', Some 3),
      (''N'', Some ''43A'', Some 10),
      (''X'', Some ''45B'', Some 42)]"
  by code_simp

section \<open>Strict-upward lookup\<close>



section \<open>Nearest-preceding resolver\<close>

text \<open>
  Claim C4. On a constructed processor, the lookup of a material code \<open>m\<close> below a bound
  \<open>b\<close> returns position \<open>i\<close> exactly when row \<open>i\<close> has trimmed material \<open>m\<close> (not blank),
  its reassigned sequence \<open>LN\<close> is below \<open>b\<close>, and no row with the same trimmed material
  and a sequence below \<open>b\<close> has a greater sequence. The lookup returns not-found exactly
  when no row with a non-blank material equal to \<open>m\<close> has a sequence below \<open>b\<close>. It never
  throws.
\<close>

theorem findMaterialBeforeLN_contract:
  fixes compile rows pat rules
  defines "P \<equiv> constructor compile rows pat rules"
  shows "(findMaterialBeforeLN P m b = Inr (Some i) \<longleftrightarrow>
            i < length (data P) \<and> m \<noteq> [] \<and> trim (Material (data P ! i)) = m \<and> LN (data P ! i) < b \<and>
            (\<forall>j<length (data P).
               trim (Material (data P ! j)) = m \<and> LN (data P ! j) < b \<longrightarrow> LN (data P ! j) \<le> LN (data P ! i)))
       \<and> (findMaterialBeforeLN P m b = Inr None \<longleftrightarrow>
            \<not> (\<exists>j<length (data P).
                  trim (Material (data P ! j)) \<noteq> [] \<and> trim (Material (data P ! j)) = m \<and> LN (data P ! j) < b))
       \<and> findMaterialBeforeLN P m b \<noteq> Inl e"
proof -
  have nth: "\<And>j. j < length rows \<Longrightarrow> data P ! j = (rows ! j)\<lparr>LN := Suc j\<rparr>"
    by (simp add: P_def constructor_nth)
  have some: "findMaterialBeforeLN P m b = Inr (Some i) \<longleftrightarrow>
            i < length (data P) \<and> m \<noteq> [] \<and> trim (Material (data P ! i)) = m \<and> LN (data P ! i) < b \<and>
            (\<forall>j<length (data P).
               trim (Material (data P ! j)) = m \<and> LN (data P ! j) < b \<longrightarrow> LN (data P ! j) \<le> LN (data P ! i))"
    unfolding P_def find_constructed_Some
    using nth by (auto simp: constructor_length P_def)
  have none: "findMaterialBeforeLN P m b = Inr None \<longleftrightarrow>
            \<not> (\<exists>j<length (data P).
                  trim (Material (data P ! j)) \<noteq> [] \<and> trim (Material (data P ! j)) = m \<and> LN (data P ! j) < b)"
    unfolding P_def find_constructed_None
    using nth by (auto simp: constructor_length P_def)
  have "findMaterialBeforeLN P m b \<noteq> Inl e"
    unfolding P_def by (rule find_constructed_Inr)
  with some none show ?thesis by blast
qed

text \<open>
  In \<open>dup_rows\<close> the code \<open>A\<close> sits at positions 1 and 3 (sequences 2 and 4): below 4 the
  lookup returns position 1, below 2 it finds nothing.
\<close>

theorem findMaterialBeforeLN_contract_witness:
  "findMaterialBeforeLN (constructor RegExp_literal dup_rows ''45'' NoRules) ''A'' 4 = Inr (Some 1)
   \<and> trim (Material (data (constructor RegExp_literal dup_rows ''45'' NoRules) ! 1)) = ''A''
   \<and> LN (data (constructor RegExp_literal dup_rows ''45'' NoRules) ! 1) = 2
   \<and> trim (Material (data (constructor RegExp_literal dup_rows ''45'' NoRules) ! 3)) = ''A''
   \<and> LN (data (constructor RegExp_literal dup_rows ''45'' NoRules) ! 3) = 4
   \<and> findMaterialBeforeLN (constructor RegExp_literal dup_rows ''45'' NoRules) ''A'' 2 = Inr None"
proof -
  let ?P = "constructor RegExp_literal dup_rows ''45'' NoRules"
  have len: "length (data ?P) = 5" by code_simp
  have r1: "trim (Material (data ?P ! 1)) = ''A''" by code_simp
  have r2: "LN (data ?P ! 1) = 2" by code_simp
  have r3: "trim (Material (data ?P ! 3)) = ''A''" by code_simp
  have r4: "LN (data ?P ! 3) = 4" by code_simp
  have "\<forall>j\<in>set [0..<5]. trim (Material (data ?P ! j)) = ''A'' \<and> LN (data ?P ! j) < 4
          \<longrightarrow> LN (data ?P ! j) \<le> LN (data ?P ! 1)"
    by code_simp
  then have greatest: "\<forall>j<length (data ?P). trim (Material (data ?P ! j)) = ''A'' \<and> LN (data ?P ! j) < 4
          \<longrightarrow> LN (data ?P ! j) \<le> LN (data ?P ! 1)"
    by (simp add: len)
  have "\<forall>j\<in>set [0..<5]. \<not> (trim (Material (data ?P ! j)) \<noteq> [] \<and> trim (Material (data ?P ! j)) = ''A''
          \<and> LN (data ?P ! j) < 2)"
    by code_simp
  then have nothing: "\<not> (\<exists>j<length (data ?P). trim (Material (data ?P ! j)) \<noteq> []
          \<and> trim (Material (data ?P ! j)) = ''A'' \<and> LN (data ?P ! j) < 2)"
    by (simp add: len)
  have p1: "1 < length (data ?P)" by (simp add: len)
  have p2: "''A'' \<noteq> []" by simp
  have p3: "LN (data ?P ! 1) < 4" unfolding r2 by simp
  have a: "findMaterialBeforeLN ?P ''A'' 4 = Inr (Some 1)"
    by (rule iffD2[OF conjunct1[OF findMaterialBeforeLN_contract
            [of RegExp_literal dup_rows "''45''" NoRules "''A''" 4 1 TypeError]]])
       (intro conjI p1 p2 p3 r1 greatest)
  have b: "findMaterialBeforeLN ?P ''A'' 2 = Inr None"
    by (rule iffD2[OF conjunct1[OF conjunct2[OF findMaterialBeforeLN_contract
            [of RegExp_literal dup_rows "''45''" NoRules "''A''" 2 0 TypeError]]]])
       (fact nothing)
  from a b r1 r2 r3 r4 show ?thesis by blast
qed

section \<open>Class-A and class-B materials\<close>




text \<open>
  The walk is cut where it looks up a material code a second time. In \<open>repeat_rows\<close> the
  walk from \<open>43A\<close> reaches the first \<open>N\<close>, whose code is in the visited set since the
  traversal started from the second \<open>N\<close>; it returns there, and the class-B parent of the
  first \<open>N\<close> is not looked at. The walk is also cut by the depth cap: in \<open>passover_rows\<close>
  the cap 2 lets the walk reach \<open>45B\<close>, the cap 1 ends it at \<open>P\<close>.
\<close>

lemma repeated_code_cuts_walk:
  "findMaterialBeforeLN (constructor RegExp_literal repeat_rows ''43|45'' NoRules) ''N'' 5 = Inr (Some 3)
   \<and> parentOf (constructor RegExp_literal repeat_rows ''43|45'' NoRules) 3 = Some 2
   \<and> walkEndsAt (constructor RegExp_literal repeat_rows ''43|45'' NoRules) 2 [1] 0
   \<and> Material (data (constructor RegExp_literal repeat_rows ''43|45'' NoRules) ! 0) = ''45B''
   \<and> lookedUp (constructor RegExp_literal repeat_rows ''43|45'' NoRules) 3 [2, 1] = [''43A'', ''N'']
   \<and> traverseHierarchyUnified (constructor RegExp_literal repeat_rows ''43|45'' NoRules)
         ''N'' 7 0 20 5 {} = ((''43A'', 42), {})"
  by code_simp

lemma depth_cap_cuts_walk:
  "walkEndsAt (constructor RegExp_literal passover_rows ''43|45|64'' NoRules) 2 [1] 0
   \<and> traverseHierarchyUnified (constructor RegExp_literal passover_rows ''43|45|64'' NoRules)
         ''N'' 7 0 2 5 {} = ((''45B'', 42), {})
   \<and> traverseHierarchyUnified (constructor RegExp_literal passover_rows ''43|45|64'' NoRules)
         ''N'' 7 0 1 5 {} = ((''43A'', 42), {})"
  by code_simp

section \<open>Termination of the traversal\<close>

text \<open>
  Claim C6. The traversal terminates on every processor, starting material, usage,
  depth, cap, bound and visited set: every input is in the domain of the recursion
  (the accessible part of its call relation), and the function returns a pair. When the
  depth exceeds the cap it returns the starting material and the accumulated usage
  unchanged. It does not raise: when the lookup of the starting material throws, the
  result is again the starting material and the accumulated usage.
\<close>

theorem traverse_terminates:
  "traverseHierarchyUnified_dom (p, startMaterial, usage, depth, maxDepth, currentLN, vis)
   \<and> (maxDepth < depth \<longrightarrow>
        traverseHierarchyUnified p startMaterial usage depth maxDepth currentLN vis
          = ((startMaterial, usage), vis))
   \<and> (findMaterialBeforeLN p startMaterial currentLN = Inl e \<longrightarrow>
        traverseHierarchyUnified p startMaterial usage depth maxDepth currentLN vis
          = ((startMaterial, usage), vis))"
proof (intro conjI)
  show "traverseHierarchyUnified_dom (p, startMaterial, usage, depth, maxDepth, currentLN, vis)"
  proof (induction depth arbitrary: startMaterial usage currentLN vis
           rule: depth_induct[where md = maxDepth])
    case (step d)
    show ?case
    proof (rule accpI)
      fix y
      assume "traverseHierarchyUnified_rel y (p, startMaterial, usage, d, maxDepth, currentLN, vis)"
      then show "traverseHierarchyUnified_dom y"
        by (rule traverseHierarchyUnified_rel.cases) (auto intro: step.IH)
    qed
  qed
next
  show "maxDepth < depth \<longrightarrow>
        traverseHierarchyUnified p startMaterial usage depth maxDepth currentLN vis
          = ((startMaterial, usage), vis)"
    by (subst traverseHierarchyUnified.simps) simp
next
  show "findMaterialBeforeLN p startMaterial currentLN = Inl e \<longrightarrow>
        traverseHierarchyUnified p startMaterial usage depth maxDepth currentLN vis
          = ((startMaterial, usage), vis)"
    by (simp add: traverse_no_current)
qed

text \<open>
  On the cyclic table \<open>cycle_rows\<close>: at depth 21 with cap 20 the call returns its
  arguments; at depth 0 the walk \<open>A \<rightarrow> B \<rightarrow> A\<close> stops at the second visit of \<open>A\<close>. On
  \<open>broken_index\<close> the lookup of \<open>A\<close> throws and the call returns its arguments.
\<close>

theorem traverse_terminates_witness:
  "(20::nat) < 21
   \<and> traverseHierarchyUnified (constructor RegExp_literal cycle_rows ''45'' NoRules) ''A'' 7 21 20 4 {}
       = ((''A'', 7), {})
   \<and> traverseHierarchyUnified (constructor RegExp_literal cycle_rows ''45'' NoRules) ''A'' 7 0 20 4 {}
       = ((''A'', 42), {})
   \<and> findMaterialBeforeLN broken_index ''A'' 4 = Inl TypeError
   \<and> traverseHierarchyUnified broken_index ''A'' 7 0 20 4 {} = ((''A'', 7), {})"
proof -
  have g: "(20::nat) < 21" by simp
  have c: "traverseHierarchyUnified (constructor RegExp_literal cycle_rows ''45'' NoRules) ''A'' 7 0 20 4 {}
       = ((''A'', 42), {})"
    by code_simp
  have t: "findMaterialBeforeLN broken_index ''A'' 4 = Inl TypeError"
    by code_simp
  from g c t
    traverse_terminates[of "constructor RegExp_literal cycle_rows ''45'' NoRules" "''A''" 7 21 20 4 "{}"]
    traverse_terminates[of broken_index "''A''" 7 0 20 4 "{}" TypeError]
  show ?thesis by blast
qed

section \<open>Secondary rule\<close>




text \<open>Where the cell of \<open>DCS1\<close> holds the string \<open>'0'\<close>, the factor is 0.\<close>

lemma secondary_rule_text_zero:
  "Unit_Usg (data (constructor RegExp_literal rule_rows_text ''45'' dcs_rule) ! 1) = NumericText 0
   \<and> traverseHierarchyUnified (constructor RegExp_literal rule_rows_text ''45'' dcs_rule) ''M'' 5 0 20 4 {}
        = ((''DCS1'', 0), {})"
  by code_simp

section \<open>Invalid patterns\<close>

text \<open>
  Claim C8. When the compilation of the pattern fails, the constructor still returns a
  processor; its matcher is the fallback expression, and \<open>matchesPattern\<close> is false for
  every material, the empty string included.
\<close>

theorem invalid_pattern_matches_nothing:
  assumes "compile pat = None"
  shows "materialPattern (constructor compile rows pat rules) = empty_regexp
         \<and> \<not> matchesPattern (constructor compile rows pat rules) material"
  using assms by (simp add: constructor_def Let_def matchesPattern_def empty_regexp_def)

text \<open>
  The pattern \<open>(\<close> does not compile (the group of \<open>^(()\<close> is unterminated); the processor
  built with it matches neither \<open>(45\<close> nor the empty string.
\<close>

theorem invalid_pattern_matches_nothing_witness:
  "RegExp_literal ''('' = None
   \<and> \<not> matchesPattern (constructor RegExp_literal dup_rows ''('' NoRules) ''(45''
   \<and> \<not> matchesPattern (constructor RegExp_literal dup_rows ''('' NoRules) []"
proof -
  have h: "RegExp_literal ''('' = None"
    by (simp add: RegExp_literal_def regexp_meta_def)
  show ?thesis
    using h invalid_pattern_matches_nothing[of RegExp_literal "''(''" dup_rows NoRules "''(45''"]
      invalid_pattern_matches_nothing[of RegExp_literal "''(''" dup_rows NoRules "[]"]
    by blast
qed

section \<open>Idempotence and isolation\<close>

text \<open>
  Claim C9. Let the caller's table \<open>table\<close> refer to objects of the store \<open>h\<close>. The
  processor constructed from it holds copies. Calling \<open>process\<close> twice leaves the rows of the
  processor, derived columns included, as the first call left them; and neither the
  constructor nor the calls of \<open>process\<close> change an object the caller's table refers to,
  so a second processor constructed from the same table after a run is the same processor.
\<close>

theorem process_idempotent_isolated:
  fixes compile h table pat rules
  defines "st \<equiv> constructor_store compile h table pat rules"
  defines "P \<equiv> constructor compile (snapshot h table) pat rules"
  assumes valid: "\<forall>a\<in>set table. a < length h"
  shows "snd (snd st) = P
       \<and> data (process (process P)) = data (process P)
       \<and> snapshot (fst (process_store st)) (fst (snd st)) = data (process P)
       \<and> snapshot (fst (process_store (process_store st))) (fst (snd st)) = data (process P)
       \<and> snapshot (fst st) table = snapshot h table
       \<and> snapshot (fst (process_store (process_store st))) table = snapshot h table
       \<and> snd (snd (constructor_store compile (fst (process_store st)) table pat rules)) = P"
proof -
  let ?refs = "[length h..<length h + length table]"
  obtain h1 where st: "st = (h1, ?refs, P)"
    unfolding st_def P_def constructor_store_eq by simp
  have h1: "h1 = fst (constructor_store compile h table pat rules)"
    using st by (simp add: st_def)
  have len1: "length h1 = length h + length table"
    unfolding h1 by (rule constructor_store_length)
  have snap1: "snapshot h1 ?refs = data P"
    using constructor_store_snapshot[of compile h table pat rules] st
    by (simp add: st_def)
  have frame1: "h1 ! a = h ! a" if "a < length h" for a
    unfolding h1 using that by (rule constructor_store_frame)
  have fresh: "a \<notin> set ?refs" if "a \<in> set table" for a
    using valid that by auto
  obtain h2 where st2: "process_store st = (h2, ?refs, process P)"
    unfolding st by (simp add: process_store_def)
  have h2: "h2 = fst (process_store (h1, ?refs, P))" using st2 st by simp
  have len2: "length h2 = length h1"
    using process_store_parts(3)[of st] st st2 by simp
  have snap2: "snapshot h2 ?refs = data (process P)"
    unfolding h2 by (rule process_store_snapshot[OF _ _ snap1]) (simp_all add: len1)
  have frame2: "h2 ! a = h1 ! a" if "a \<notin> set ?refs" for a
    unfolding h2 using that by (rule process_store_frame)
  obtain h3 where st3: "process_store (process_store st) = (h3, ?refs, process (process P))"
    unfolding st2 by (simp add: process_store_def)
  have h3: "h3 = fst (process_store (h2, ?refs, process P))" using st3 st2 by simp
  have snap3: "snapshot h3 ?refs = data (process (process P))"
    unfolding h3 by (rule process_store_snapshot[OF _ _ snap2]) (simp_all add: len1 len2)
  have frame3: "h3 ! a = h2 ! a" if "a \<notin> set ?refs" for a
    unfolding h3 using that by (rule process_store_frame)
  have idem: "data (process (process P)) = data (process P)"
    unfolding P_def by (rule process_twice_data)
  have keep1: "snapshot h1 table = snapshot h table"
    using valid by (intro snapshot_frame frame1) simp
  have keep3: "snapshot h3 table = snapshot h table"
    using valid fresh by (intro snapshot_frame) (simp add: frame3 frame2 frame1)
  have keep2: "snapshot h2 table = snapshot h table"
    using valid fresh by (intro snapshot_frame) (simp add: frame2 frame1)
  have again: "snd (snd (constructor_store compile h2 table pat rules)) = P"
    by (simp add: constructor_store_eq keep2 P_def)
  show ?thesis
    unfolding st3 unfolding st2 unfolding st
    using idem snap2 snap3 keep1 keep3 again by simp
qed

text \<open>
  The scenario table in a store of three objects: the copies are the objects 3, 4 and
  5, they carry the results after two calls of \<open>process\<close>, and the caller's objects are as
  before.
\<close>

theorem process_idempotent_isolated_witness:
  "snapshot (fst (constructor_store RegExp_literal scenario_rows [0, 1, 2] ''45'' NoRules)) [0, 1, 2]
     = scenario_rows
   \<and> fst (snd (constructor_store RegExp_literal scenario_rows [0, 1, 2] ''45'' NoRules)) = [3, 4, 5]
   \<and> map (\<lambda>r. (SYS_CPN r, Ttl_Usage r))
        (snapshot (fst (process_store (process_store
           (constructor_store RegExp_literal scenario_rows [0, 1, 2] ''45'' NoRules)))) [3, 4, 5])
     = [(Some ''ROOT'', Some 1), (Some ''45ABC'', Some 2), (Some ''45ABC'', Some 5)]
   \<and> snapshot (fst (process_store (process_store
           (constructor_store RegExp_literal scenario_rows [0, 1, 2] ''45'' NoRules)))) [0, 1, 2]
     = scenario_rows
   \<and> snd (snd (constructor_store RegExp_literal
           (fst (process_store (constructor_store RegExp_literal scenario_rows [0, 1, 2] ''45'' NoRules)))
           [0, 1, 2] ''45'' NoRules))
     = constructor RegExp_literal scenario_rows ''45'' NoRules"
proof -
  have valid: "\<forall>a\<in>set [0, 1, 2]. a < length scenario_rows"
    by (simp add: scenario_rows_def)
  have snap: "snapshot scenario_rows [0, 1, 2] = scenario_rows"
    by (simp add: snapshot_def scenario_rows_def)
  note inst = process_idempotent_isolated[OF valid, of RegExp_literal "''45''" NoRules, unfolded snap]
  have refs: "fst (snd (constructor_store RegExp_literal scenario_rows [0, 1, 2] ''45'' NoRules)) = [3, 4, 5]"
    by code_simp
  have out: "map (\<lambda>r. (SYS_CPN r, Ttl_Usage r))
        (snapshot (fst (process_store (process_store
           (constructor_store RegExp_literal scenario_rows [0, 1, 2] ''45'' NoRules)))) [3, 4, 5])
     = [(Some ''ROOT'', Some 1), (Some ''45ABC'', Some 2), (Some ''45ABC'', Some 5)]"
    by code_simp
  from inst refs out show ?thesis by blast
qed

section \<open>Visited set\<close>

text \<open>
  Claim C10. Every call of the traversal returns the visited set it was given: the
  material added by the call is removed on each of its exits, the exit through the
  \<open>catch\<close> after a throwing lookup included. A top-level call that starts with the empty
  set ends with the empty set.
\<close>

theorem visited_restored:
  "snd (traverseHierarchyUnified p startMaterial usage depth maxDepth currentLN vis) = vis
   \<and> snd (traverseHierarchyUnified p startMaterial usage 0 20 currentLN {}) = {}"
  by (simp add: traverse_snd)

text \<open>
  On \<open>broken_parent_index\<close> the walk from \<open>A\<close> locates \<open>A\<close>, adds it to the visited set, and the
  lookup of its parent \<open>B\<close> throws: the call returns its arguments and the empty set.
\<close>

lemma throw_in_parent_lookup:
  "findMaterialBeforeLN broken_parent_index ''A'' 4 = Inr (Some 0)
   \<and> findMaterialBeforeLN broken_parent_index ''B'' 1 = Inl TypeError
   \<and> traverseHierarchyUnified broken_parent_index ''A'' 7 0 20 4 {} = ((''A'', 7), {})"
  by code_simp

end
